theory Spec2Isabelle
  imports Main
begin

section \<open>Strings of the generator\<close>

text \<open>
  Tokens and candidates are Python \<open>str\<close> values. They are modelled as \<open>string\<close>
  (lists of 8-bit characters), and the string methods the generators call
  (\<open>lower\<close>, \<open>upper\<close>, \<open>capitalize\<close>, \<open>title\<close>, \<open>isdigit\<close>, \<open>strip\<close>, \<open>split\<close>,
  \<open>replace\<close>) are written out for ASCII text: a letter is one of \<open>A..Z\<close>, \<open>a..z\<close>,
  a digit one of \<open>0..9\<close>, and every other character is left as it is. The development
  therefore speaks about ASCII input; Python's special casing of other code points
  is outside the model.
\<close>

definition is_upper :: "char \<Rightarrow> bool" where
  "is_upper c = (65 \<le> (of_char c :: nat) \<and> (of_char c :: nat) \<le> 90)"

definition is_lower :: "char \<Rightarrow> bool" where
  "is_lower c = (97 \<le> (of_char c :: nat) \<and> (of_char c :: nat) \<le> 122)"

definition is_digit :: "char \<Rightarrow> bool" where
  "is_digit c = (48 \<le> (of_char c :: nat) \<and> (of_char c :: nat) \<le> 57)"

definition lower_char :: "char \<Rightarrow> char" where
  "lower_char c = (if is_upper c then char_of ((of_char c :: nat) + 32) else c)"

definition upper_char :: "char \<Rightarrow> char" where
  "upper_char c = (if is_lower c then char_of ((of_char c :: nat) - 32) else c)"

text \<open>\<open>str.lower()\<close> and \<open>str.upper()\<close>.\<close>

definition lower :: "string \<Rightarrow> string" where
  "lower w = map lower_char w"

definition upper :: "string \<Rightarrow> string" where
  "upper w = map upper_char w"

text \<open>\<open>str.capitalize()\<close>: first character upper-cased, the rest lower-cased.\<close>

fun capitalize :: "string \<Rightarrow> string" where
  "capitalize [] = []"
| "capitalize (c # cs) = upper_char c # lower cs"

text \<open>
  \<open>str.title()\<close>: a cased character is upper-cased when the character before it is
  not cased (or there is none), and lower-cased otherwise; uncased characters are
  kept. The flag is CPython's \<open>previous_is_cased\<close>.
\<close>

fun title_from :: "bool \<Rightarrow> string \<Rightarrow> string" where
  "title_from prev [] = []"
| "title_from prev (c # cs) =
     (if is_lower c \<or> is_upper c
      then (if prev then lower_char c else upper_char c) # title_from True cs
      else c # title_from False cs)"

definition title :: "string \<Rightarrow> string" where
  "title w = title_from False w"

text \<open>\<open>str.isdigit()\<close>: non-empty and made of digits only.\<close>

definition isdigit :: "string \<Rightarrow> bool" where
  "isdigit w = (w \<noteq> [] \<and> list_all is_digit w)"

section \<open>Full-mode mutations (\<open>wordlister_strong.py\<close>)\<close>

text \<open>
  A Python \<open>set\<close> of strings is modelled as a duplicate-free list; \<open>remdups\<close> stands
  where the source builds the set. Python fixes no iteration order for a set, so the
  order of these lists is one admissible order among many, and the theorems below
  speak about membership, cardinality and distinctness only.
\<close>

definition case_variants :: "string \<Rightarrow> string list" where
  "case_variants word = remdups [lower word, upper word, capitalize word]"

text \<open>The glyph table \<open>leet\<close> of \<open>leet_variants\<close>, in source order.\<close>

definition leet :: "(char \<times> string list) list" where
  "leet =
    [(CHR ''a'', [''a'', ''A'', ''@'', ''4'']),
     (CHR ''b'', [''b'', ''B'', ''8'']),
     (CHR ''c'', [''c'', ''C'', ''('']),
     (CHR ''d'', [''d'', ''D'']),
     (CHR ''e'', [''e'', ''E'', ''3'']),
     (CHR ''f'', [''f'', ''F'']),
     (CHR ''g'', [''g'', ''G'', ''6'', ''9'']),
     (CHR ''h'', [''h'', ''H'', ''#'']),
     (CHR ''i'', [''i'', ''I'', ''1'', ''!'']),
     (CHR ''j'', [''j'', ''J'']),
     (CHR ''k'', [''k'', ''K'']),
     (CHR ''l'', [''l'', ''L'', ''1'', ''|'']),
     (CHR ''m'', [''m'', ''M'']),
     (CHR ''n'', [''n'', ''N'']),
     (CHR ''o'', [''o'', ''O'', ''0'']),
     (CHR ''p'', [''p'', ''P'']),
     (CHR ''q'', [''q'', ''Q'']),
     (CHR ''r'', [''r'', ''R'']),
     (CHR ''s'', [''s'', ''S'', ''$'', ''5'']),
     (CHR ''t'', [''t'', ''T'', ''7'', ''+'']),
     (CHR ''u'', [''u'', ''U'']),
     (CHR ''v'', [''v'', ''V'']),
     (CHR ''w'', [''w'', ''W'']),
     (CHR ''x'', [''x'', ''X'']),
     (CHR ''y'', [''y'', ''Y'']),
     (CHR ''z'', [''z'', ''Z'', ''2''])]"

text \<open>\<open>leet.get(c.lower(), [c])\<close>: the pool of one character position.\<close>

definition pool :: "char \<Rightarrow> string list" where
  "pool c = (case map_of leet (lower_char c) of Some p \<Rightarrow> p | None \<Rightarrow> [[c]])"

text \<open>
  \<open>{''.join(p) for p in product(*pools)}\<close>: \<open>product_lists\<close> enumerates the tuples of
  \<open>itertools.product\<close>, \<open>concat\<close> joins one tuple.
\<close>

definition leet_variants :: "string \<Rightarrow> string list" where
  "leet_variants word = remdups (map concat (product_lists (map pool word)))"

text \<open>\<open>set().union(*(f(v) for v in variants))\<close>.\<close>

definition union_over :: "(string \<Rightarrow> string list) \<Rightarrow> string list \<Rightarrow> string list" where
  "union_over f variants = remdups (concat (map f variants))"

definition mutate_final :: "string \<Rightarrow> bool \<Rightarrow> bool \<Rightarrow> string list" where
  "mutate_final word use_case use_leet =
     (let variants = [word];
          variants = (if use_case then union_over case_variants variants else variants);
          variants = (if use_leet then union_over leet_variants variants else variants)
      in variants)"

section \<open>Pattern combiner and estimator (\<open>wordlister_strong.py\<close>)\<close>

text \<open>\<open>w.isdigit() and len(w) in (2, 4)\<close>: the test that sends a token to \<open>numbers\<close>.\<close>

definition is_number :: "string \<Rightarrow> bool" where
  "is_number w = (isdigit w \<and> (length w = 2 \<or> length w = 4))"

definition split_words :: "string list \<Rightarrow> string list \<times> string list" where
  "split_words words = (filter (\<lambda>w. \<not> is_number w) words, filter is_number words)"

definition separators :: "string list" where
  "separators = ['''', ''.'', ''_'']"

definition symbols :: "string list" where
  "symbols = ['''', ''@'', ''!'']"

text \<open>
  The body of the \<open>name + name\<close> loops for one pair \<open>(a, b)\<close> that passed the guard: for
  every separator the joined base, and for every number and symbol the two attachments.
\<close>

definition pair_patterns :: "string \<Rightarrow> string \<Rightarrow> string list \<Rightarrow> string list" where
  "pair_patterns a b numbers =
     concat (map (\<lambda>sep.
       (let base = a @ sep @ b
        in base # concat (map (\<lambda>num.
             concat (map (\<lambda>sym. [base @ sym @ num, num @ base]) symbols)) numbers)))
       separators)"

text \<open>The \<open>name + name\<close> loops: \<open>if a == b: continue\<close> skips the pair.\<close>

definition name_name_patterns :: "string list \<Rightarrow> string list \<Rightarrow> string list" where
  "name_name_patterns names numbers =
     concat (map (\<lambda>a. concat (map (\<lambda>b.
       if a = b then [] else pair_patterns a b numbers) names)) names)"

text \<open>The body of the \<open>name + year\<close> loops for one name and one number.\<close>

definition year_patterns :: "string \<Rightarrow> string \<Rightarrow> string list" where
  "year_patterns name num = concat (map (\<lambda>sym. [name @ sym @ num, num @ name]) symbols)"

definition name_year_patterns :: "string list \<Rightarrow> string list \<Rightarrow> string list" where
  "name_year_patterns names numbers =
     concat (map (\<lambda>name. concat (map (\<lambda>num. year_patterns name num) numbers)) names)"

definition combine_words :: "string list \<Rightarrow> string list \<Rightarrow> string list" where
  "combine_words names numbers =
     remdups (name_name_patterns names numbers @ name_year_patterns names numbers)"

text \<open>
  \<open>estimate_total\<close>. The counts are sums and products of non-negative Python integers,
  so \<open>nat\<close> holds them exactly. \<open>max(len(n) for n in names)\<close> is evaluated only under
  the guard \<open>names\<close> (non-empty), where it is the fold of \<open>max\<close> from \<open>0\<close>.
\<close>

definition word_count :: "bool \<Rightarrow> bool \<Rightarrow> string \<Rightarrow> nat" where
  "word_count use_case use_leet w =
     (let count = 1;
          count = (if use_case then count * 3 else count);
          count = (if use_leet then count * 3 ^ length w else count)
      in count)"

definition max_len :: "string list \<Rightarrow> nat" where
  "max_len names = fold (\<lambda>n m. max (length n) m) names 0"

definition estimate_total :: "string list \<Rightarrow> bool \<Rightarrow> bool \<Rightarrow> nat" where
  "estimate_total base_words use_case use_leet =
     (let total = fold (\<lambda>w total. total + word_count use_case use_leet w) base_words 0;
          (names, numbers) = split_words base_words;
          combos = length (combine_words names numbers);
          combos = (if use_case then combos * 3 else combos);
          combos = (if use_leet \<and> names \<noteq> [] then combos * 3 ^ max_len names else combos)
      in max (total + combos) 1)"

section \<open>The candidate stream (\<open>generate_words_smart\<close>)\<close>

text \<open>
  The generator's state is the set \<open>seen\<close> and the sequence of strings yielded so far.
  \<open>emit\<close> is the inner loop \<open>for v in ...: if v not in seen: seen.add(v); yield v\<close>.
  The \<open>await asyncio.sleep(0)\<close> after each yield hands control back and changes no
  data; a consumer that stops early sees a prefix of the sequence.
\<close>

type_synonym gen_state = "string set \<times> string list"

fun emit :: "string list \<Rightarrow> gen_state \<Rightarrow> gen_state" where
  "emit [] st = st"
| "emit (v # vs) (seen, out) =
     (if v \<notin> seen then emit vs (insert v seen, out @ [v]) else emit vs (seen, out))"

definition generate_words_smart :: "string list \<Rightarrow> bool \<Rightarrow> bool \<Rightarrow> string list" where
  "generate_words_smart base_words use_case use_leet =
     (let (names, numbers) = split_words base_words;
          st = fold (\<lambda>w. emit (mutate_final w use_case use_leet)) base_words ({}, []);
          combos = combine_words names numbers;
          st = fold (\<lambda>combo. emit (mutate_final combo use_case use_leet)) combos st
      in snd st)"

section \<open>Sampled-mode generator (\<open>PasswordGenerator\<close> in \<open>wordlister.py\<close>)\<close>

definition LEET_MAP :: "(char \<times> string list) list" where
  "LEET_MAP =
    [(CHR ''a'', [''a'', ''4'', ''@'']),
     (CHR ''e'', [''e'', ''3'']),
     (CHR ''i'', [''i'', ''1'', ''!'']),
     (CHR ''o'', [''o'', ''0'']),
     (CHR ''s'', [''s'', ''5'', ''$'']),
     (CHR ''t'', [''t'', ''7'']),
     (CHR ''l'', [''l'', ''1'']),
     (CHR ''g'', [''g'', ''9''])]"

definition SEPARATORS :: "string list" where
  "SEPARATORS = ['''', ''-'', ''_'', ''.'']"

definition CAPS_PATTERNS :: "string list" where
  "CAPS_PATTERNS = [''lower'', ''upper'', ''title'', ''first'']"

text \<open>
  \<open>apply_caps\<close>. The \<open>first\<close> branch is
  \<open>word[0].upper() + word[1:].lower() if word else word\<close>; an unknown pattern returns
  the word unchanged.
\<close>

definition apply_caps :: "string \<Rightarrow> string \<Rightarrow> string" where
  "apply_caps word pattern =
     (if pattern = ''lower'' then lower word
      else if pattern = ''upper'' then upper word
      else if pattern = ''title'' then title word
      else if pattern = ''first'' then
        (case word of [] \<Rightarrow> word | c # cs \<Rightarrow> upper [c] @ lower cs)
      else word)"

text \<open>\<open>str.replace(char, repl)\<close> for a one-character \<open>char\<close>.\<close>

definition replace :: "char \<Rightarrow> string \<Rightarrow> string \<Rightarrow> string" where
  "replace char repl word = concat (map (\<lambda>c. if c = char then repl else [c]) word)"

text \<open>
  \<open>apply_leet\<close>. The loop runs over the entries of \<open>LEET_MAP\<close>; \<open>replacements[1:2]\<close> is
  \<open>take 1 (drop 1 replacements)\<close>. For \<open>intensity\<close> below \<open>1\<close> the loop is skipped and
  the result is the word alone, as for \<open>intensity == 0\<close>.
\<close>

definition leet_entry :: "string \<Rightarrow> char \<times> string list \<Rightarrow> string list" where
  "leet_entry word entry =
     (case entry of (char, replacements) \<Rightarrow>
        if char \<in> set (lower word)
        then concat (map (\<lambda>repl.
               (let new_word = replace char repl word;
                    new_word = replace (upper_char char) repl new_word
                in if new_word \<noteq> word then [new_word] else []))
               (take 1 (drop 1 replacements)))
        else [])"

definition apply_leet :: "string \<Rightarrow> int \<Rightarrow> string list" where
  "apply_leet word intensity =
     (if intensity = 0 then [word]
      else remdups (word # (if intensity \<ge> 1
                            then concat (map (leet_entry word) LEET_MAP) else [])))"

text \<open>
  \<open>generate_variations\<close>, one definition per loop nest of the source. \<open>year_forms\<close> is
  what the innermost body of the first nest adds for one \<open>leet_word\<close>.
\<close>

definition year_forms :: "string \<Rightarrow> string \<Rightarrow> int \<Rightarrow> string list" where
  "year_forms leet_word year depth =
     leet_word #
     (if year \<noteq> [] then
        [leet_word @ year, year @ leet_word] @
        (if depth \<ge> 2 then
           concat (map (\<lambda>sep. if sep \<noteq> [] then [leet_word @ sep @ year, year @ sep @ leet_word]
                               else [])
                       (take 2 SEPARATORS))
         else [])
      else [])"

definition caps_list :: "bool \<Rightarrow> string list" where
  "caps_list use_caps = (if use_caps then CAPS_PATTERNS else [''lower''])"

definition leet_intensity :: "int \<Rightarrow> bool \<Rightarrow> int" where
  "leet_intensity depth use_leet = (if use_leet then min depth 1 else 0)"

definition word_stage :: "string list \<Rightarrow> string \<Rightarrow> int \<Rightarrow> bool \<Rightarrow> bool \<Rightarrow> string list" where
  "word_stage words year depth use_leet use_caps =
     concat (map (\<lambda>word.
       concat (map (\<lambda>cap_pattern.
         (let base = apply_caps word cap_pattern
          in concat (map (\<lambda>leet_word. year_forms leet_word year depth)
                         (apply_leet base (leet_intensity depth use_leet)))))
         (caps_list use_caps)))
       words)"

definition caps_combos :: "bool \<Rightarrow> (string \<times> string) list" where
  "caps_combos use_caps =
     (if use_caps then [(''lower'', ''title''), (''title'', ''lower'')]
      else [(''lower'', ''lower'')])"

text \<open>The body of the pair loop for one pair \<open>(w1, w2)\<close> that passed \<open>w1 != w2\<close>.\<close>

definition pair_forms :: "string \<Rightarrow> string \<Rightarrow> string \<Rightarrow> int \<Rightarrow> bool \<Rightarrow> string list" where
  "pair_forms w1 w2 year depth use_caps =
     concat (map (\<lambda>(cap1, cap2).
       (let base1 = apply_caps w1 cap1;
            base2 = apply_caps w2 cap2
        in concat (map (\<lambda>sep.
             (let combo = base1 @ sep @ base2
              in combo # (if year \<noteq> [] \<and> depth \<ge> 3 then [combo @ year] else [])))
             (take 2 SEPARATORS))))
       (caps_combos use_caps))"

text \<open>\<open>product(words[:min(3, len(words))], repeat=2)\<close> is \<open>List.product\<close> of the prefix with itself.\<close>

definition pair_stage :: "string list \<Rightarrow> string \<Rightarrow> int \<Rightarrow> bool \<Rightarrow> string list" where
  "pair_stage words year depth use_caps =
     (if depth \<ge> 2 \<and> length words \<ge> 2 then
        (let ws = take (min 3 (length words)) words
         in concat (map (\<lambda>(w1, w2). if w1 \<noteq> w2 then pair_forms w1 w2 year depth use_caps else [])
                        (List.product ws ws)))
      else [])"

definition common_suffixes :: "string list" where
  "common_suffixes = [''!'', ''123'', ''1'']"

definition suffix_caps :: "bool \<Rightarrow> string list" where
  "suffix_caps use_caps = (if use_caps then [''lower'', ''title''] else [''lower''])"

definition suffix_stage :: "string list \<Rightarrow> int \<Rightarrow> bool \<Rightarrow> string list" where
  "suffix_stage words depth use_caps =
     (if depth \<ge> 2 then
        concat (map (\<lambda>word.
          concat (map (\<lambda>cap_pattern.
            (let base = apply_caps word cap_pattern
             in map (\<lambda>suffix. base @ suffix) common_suffixes))
            (suffix_caps use_caps)))
          words)
      else [])"

definition generate_variations ::
  "string list \<Rightarrow> string \<Rightarrow> int \<Rightarrow> bool \<Rightarrow> bool \<Rightarrow> string list" where
  "generate_variations words year depth use_leet use_caps =
     remdups (word_stage words year depth use_leet use_caps
              @ pair_stage words year depth use_caps
              @ suffix_stage words depth use_caps)"

section \<open>The multi-worker pipeline (\<open>GenerationEngine.generate\<close>)\<close>

text \<open>
  \<open>range(i, n, 2)\<close> as the counting loop it stands for; \<open>generate\<close> starts it at \<open>0\<close>.
\<close>

function range2 :: "nat \<Rightarrow> nat \<Rightarrow> nat list" where
  "range2 i n = (if i < n then i # range2 (i + 2) n else [])"
  by pat_completeness auto
termination
  by (relation "measure (\<lambda>(i, n). n - i)") auto

declare range2.simps [simp del]

text \<open>The chunking at the head of \<open>generate\<close>; \<open>words[i:i+3]\<close> is \<open>take 3 (drop i words)\<close>.\<close>

definition word_chunks :: "'a list \<Rightarrow> 'a list list" where
  "word_chunks words =
     (if length words \<le> 3 then [words]
      else concat (map (\<lambda>i. (let chunk = take 3 (drop i words)
                              in if length chunk \<ge> 1 then [chunk] else []))
                       (range2 0 (length words))))"

text \<open>
  What the workers put on the queue when the stop flag stays clear: each chunk's
  variations. The workers race, so the order across chunks is not fixed by the source;
  the list below takes the chunks in submission order.
\<close>

definition engine_generate ::
  "string list \<Rightarrow> string \<Rightarrow> int \<Rightarrow> bool \<Rightarrow> bool \<Rightarrow> string list" where
  "engine_generate words year depth use_leet use_caps =
     concat (map (\<lambda>chunk. generate_variations chunk year depth use_leet use_caps)
                 (word_chunks words))"

section \<open>Starting a run\<close>

text \<open>
  ASCII whitespace as \<open>str.strip()\<close> and \<open>str.split()\<close> see it: tab, line feed, vertical
  tab, form feed, carriage return, the four separators \<open>0x1c..0x1f\<close>, and space.
\<close>

definition isspace :: "char \<Rightarrow> bool" where
  "isspace c = ((9 \<le> (of_char c :: nat) \<and> (of_char c :: nat) \<le> 13)
              \<or> (28 \<le> (of_char c :: nat) \<and> (of_char c :: nat) \<le> 32))"

definition strip :: "string \<Rightarrow> string" where
  "strip s = rev (dropWhile isspace (rev (dropWhile isspace s)))"

text \<open>\<open>s.split(sep)\<close> for a one-character separator: always at least one piece.\<close>

fun split_on :: "char \<Rightarrow> string \<Rightarrow> string list" where
  "split_on sep [] = [[]]"
| "split_on sep (c # cs) =
     (if c = sep then [] # split_on sep cs
      else (case split_on sep cs of [] \<Rightarrow> [[c]] | p # ps \<Rightarrow> (c # p) # ps))"

text \<open>\<open>s.split()\<close>: the maximal runs of non-whitespace; \<open>cur\<close> is the run being read.\<close>

fun split_ws :: "string \<Rightarrow> string \<Rightarrow> string list" where
  "split_ws cur [] = (if cur = [] then [] else [cur])"
| "split_ws cur (c # cs) =
     (if isspace c then (if cur = [] then split_ws [] cs else cur # split_ws [] cs)
      else split_ws (cur @ [c]) cs)"

definition split :: "string \<Rightarrow> string list" where
  "split s = split_ws [] s"

text \<open>
  \<open>WordlisterApp.start_generation\<close> up to the start of the engine. The result is either
  the error notification, or the run that the background thread performs: the output
  file the writer opens, the arguments of \<open>engine.generate\<close>, and the candidates queued
  for the writer. \<open>depth_input\<close> is the outcome of \<open>int(depth_input)\<close>, \<open>None\<close> when it raises.
\<close>

record app_run =
  run_output_file :: string
  run_words :: "string list"
  run_year :: string
  run_depth :: int
  run_queued :: "string list"

definition parse_depth :: "int option \<Rightarrow> int" where
  "parse_depth depth_input = (case depth_input of None \<Rightarrow> 2 | Some d \<Rightarrow> max 1 (min 3 d))"

definition app_start_generation ::
  "string \<Rightarrow> string \<Rightarrow> string \<Rightarrow> int option \<Rightarrow> bool \<Rightarrow> bool \<Rightarrow> string + app_run" where
  "app_start_generation words_input year_input output_file depth_input use_leet use_caps =
     (if strip words_input = [] then Inl ''Please enter words''
      else
        (let words = map strip (filter (\<lambda>w. strip w \<noteq> []) (split_on CHR '','' words_input));
             year = strip year_input;
             depth = parse_depth depth_input
         in Inr \<lparr> run_output_file = output_file, run_words = words, run_year = year,
                  run_depth = depth,
                  run_queued = engine_generate words year depth use_leet use_caps \<rparr>))"

text \<open>
  \<open>WordlistTUI.start_generation\<close>: the error notification, or the run with its progress
  total and the lines written when the run is not stopped.
\<close>

record tui_run =
  tui_outfile :: string
  tui_base_words :: "string list"
  tui_total :: nat
  tui_written :: "string list"

definition tui_start_generation :: "string \<Rightarrow> string \<Rightarrow> bool \<Rightarrow> bool \<Rightarrow> string + tui_run" where
  "tui_start_generation base_input outfile_input use_case use_leet =
     (let base_words = split (map (\<lambda>c. if c = CHR '','' then CHR '' '' else c) base_input)
      in if base_words = [] then Inl ''No base words provided''
         else Inr \<lparr> tui_outfile = (if outfile_input = [] then ''wordlist.txt'' else outfile_input),
                    tui_base_words = base_words,
                    tui_total = estimate_total base_words use_case use_leet,
                    tui_written = generate_words_smart base_words use_case use_leet \<rparr>)"

section \<open>Properties\<close>

subsection \<open>Case patterns\<close>

lemma lower_char_idem: "lower_char (lower_char c) = lower_char c"
  by (simp add: lower_char_def is_upper_def)

lemma lower_idem: "lower (lower w) = lower w"
  by (simp add: lower_def lower_char_idem)

text \<open>
  Claim C8. For a non-empty token \<open>w\<close>, the strings obtained from the case patterns
  contain the all-lowercase and the all-uppercase form of \<open>w\<close>, both for the four
  patterns of \<open>apply_caps\<close> and for \<open>case_variants\<close>; and the lowercase pattern is
  idempotent.
\<close>

theorem case_patterns_lower_upper:
  assumes "w \<noteq> []"
  shows "lower w \<in> set (map (apply_caps w) CAPS_PATTERNS)
       \<and> upper w \<in> set (map (apply_caps w) CAPS_PATTERNS)
       \<and> lower w \<in> set (case_variants w)
       \<and> upper w \<in> set (case_variants w)
       \<and> apply_caps (apply_caps w ''lower'') ''lower'' = apply_caps w ''lower''
       \<and> lower (lower w) = lower w"
  by (simp add: CAPS_PATTERNS_def apply_caps_def case_variants_def lower_idem)

theorem case_patterns_lower_upper_witness:
  "''Ab1'' \<noteq> [] \<and> ''ab1'' \<in> set (map (apply_caps ''Ab1'') CAPS_PATTERNS)
     \<and> ''AB1'' \<in> set (case_variants ''Ab1'')"
proof -
  have ne: "''Ab1'' \<noteq> []" by simp
  have l: "lower ''Ab1'' = ''ab1''" by code_simp
  have u: "upper ''Ab1'' = ''AB1''" by code_simp
  from case_patterns_lower_upper [OF ne] show ?thesis by (simp only: l u ne simp_thms)
qed

subsection \<open>Mutation without options\<close>

text \<open>
  Claim C10. With the case option and the leet option both off, \<open>mutate_final\<close>
  returns the set holding the word itself and nothing else.
\<close>

theorem mutate_final_plain: "set (mutate_final w False False) = {w}"
  by (simp add: mutate_final_def)

subsection \<open>The candidate stream yields no string twice\<close>

lemma emit_inv:
  "fst st = set (snd st) \<Longrightarrow> distinct (snd st) \<Longrightarrow>
     fst (emit vs st) = set (snd (emit vs st)) \<and> distinct (snd (emit vs st))
     \<and> set (snd (emit vs st)) = set (snd st) \<union> set vs"
proof (induction vs arbitrary: st)
  case Nil
  then show ?case by simp
next
  case (Cons v vs)
  obtain seen out where st: "st = (seen, out)" by (cases st)
  show ?case
  proof (cases "v \<in> seen")
    case True
    with Cons.prems st Cons.IH [of "(seen, out)"] show ?thesis by auto
  next
    case False
    with Cons.prems st Cons.IH [of "(insert v seen, out @ [v])"] show ?thesis by auto
  qed
qed

lemma fold_emit_inv:
  "fst st = set (snd st) \<Longrightarrow> distinct (snd st) \<Longrightarrow>
     fst (fold (\<lambda>w. emit (f w)) ws st) = set (snd (fold (\<lambda>w. emit (f w)) ws st))
     \<and> distinct (snd (fold (\<lambda>w. emit (f w)) ws st))
     \<and> set (snd (fold (\<lambda>w. emit (f w)) ws st)) = set (snd st) \<union> (\<Union>w\<in>set ws. set (f w))"
proof (induction ws arbitrary: st)
  case Nil
  then show ?case by simp
next
  case (Cons w ws)
  from emit_inv [OF Cons.prems, of "f w"]
  have a: "fst (emit (f w) st) = set (snd (emit (f w) st))"
    and b: "distinct (snd (emit (f w) st))"
    and c: "set (snd (emit (f w) st)) = set (snd st) \<union> set (f w)" by blast+
  from Cons.IH [OF a b] c show ?case by auto
qed

lemma generate_words_smart_set:
  "set (generate_words_smart ws uc ul) =
     (\<Union>w\<in>set ws. set (mutate_final w uc ul))
     \<union> (\<Union>c\<in>set (combine_words (fst (split_words ws)) (snd (split_words ws))).
           set (mutate_final c uc ul))"
proof -
  let ?st1 = "fold (\<lambda>w. emit (mutate_final w uc ul)) ws ({}, [])"
  have 1: "fst ?st1 = set (snd ?st1)" "distinct (snd ?st1)"
    "set (snd ?st1) = (\<Union>w\<in>set ws. set (mutate_final w uc ul))"
    using fold_emit_inv [of "({}, [])" "\<lambda>w. mutate_final w uc ul" ws] by simp_all
  from fold_emit_inv [OF 1(1,2), of "\<lambda>c. mutate_final c uc ul"] 1(3)
  show ?thesis
    by (simp add: generate_words_smart_def Let_def split_beta)
qed

text \<open>
  Claim C5. The sequence yielded by \<open>generate_words_smart\<close> holds no string twice,
  across the single-word stage and the combination stage, for every token list and
  every setting of the two options.
\<close>

theorem generate_words_smart_distinct: "distinct (generate_words_smart ws uc ul)"
proof -
  let ?st1 = "fold (\<lambda>w. emit (mutate_final w uc ul)) ws ({}, [])"
  have 1: "fst ?st1 = set (snd ?st1)" "distinct (snd ?st1)"
    using fold_emit_inv [of "({}, [])" "\<lambda>w. mutate_final w uc ul" ws] by simp_all
  from fold_emit_inv [OF 1, of "\<lambda>c. mutate_final c uc ul"]
  show ?thesis
    by (simp add: generate_words_smart_def Let_def split_beta)
qed

subsection \<open>Size of the full substitution set\<close>

lemma leet_pools: "(k, p) \<in> set leet \<Longrightarrow> distinct p \<and> (\<forall>s\<in>set p. length s = 1)"
  by (auto simp: leet_def)

lemma pool_props: "distinct (pool c) \<and> (\<forall>s\<in>set (pool c). length s = 1)"
proof (cases "map_of leet (lower_char c)")
  case None
  then show ?thesis by (simp add: pool_def)
next
  case (Some p)
  then have "(lower_char c, p) \<in> set leet" by (rule map_of_SomeD)
  from leet_pools [OF this] Some show ?thesis by (simp add: pool_def)
qed

lemma concat_singletons: "\<forall>y\<in>set ys. length y = 1 \<Longrightarrow> map (\<lambda>c. [c]) (concat ys) = ys"
proof (induction ys)
  case Nil
  then show ?case by simp
next
  case (Cons y ys)
  then obtain c where "y = [c]" by (cases y) auto
  with Cons show ?case by simp
qed

lemma product_lists_elems:
  "ys \<in> set (product_lists xss) \<Longrightarrow> \<forall>xs\<in>set xss. \<forall>x\<in>set xs. P x \<Longrightarrow> \<forall>y\<in>set ys. P y"
  by (induction xss arbitrary: ys) auto

lemma inj_concat_pools:
  "inj_on concat (set (product_lists (map pool w)))"
proof (rule inj_on_inverseI [where g = "map (\<lambda>c. [c])"])
  fix ys assume "ys \<in> set (product_lists (map pool w))"
  then have "\<forall>y\<in>set ys. length y = 1"
    by (rule product_lists_elems) (use pool_props in auto)
  then show "map (\<lambda>c. [c]) (concat ys) = ys" by (rule concat_singletons)
qed

lemma length_product_lists_prod: "length (product_lists xss) = prod_list (map length xss)"
  by (induction xss) (simp_all add: length_concat o_def sum_list_triv)

lemma pool_card: "card (set (pool c)) = length (pool c)"
  using pool_props by (simp add: distinct_card)

text \<open>
  Claim C4. In full substitution mode the number of variants of a word is the product,
  over its character positions, of the size of the position's pool, where \<open>pool c\<close> is
  the table entry of the lower-cased character, or the character alone when the table
  has no entry for it.
\<close>

theorem leet_variants_card:
  "card (set (leet_variants w)) = prod_list (map (\<lambda>c. card (set (pool c))) w)"
proof -
  have d: "distinct (product_lists (map pool w))"
    by (rule distinct_product_lists) (use pool_props in auto)
  have "card (set (leet_variants w)) = card (concat ` set (product_lists (map pool w)))"
    by (simp add: leet_variants_def)
  also have "\<dots> = card (set (product_lists (map pool w)))"
    by (rule card_image) (rule inj_concat_pools)
  also have "\<dots> = length (product_lists (map pool w))"
    using d by (rule distinct_card)
  also have "\<dots> = prod_list (map (\<lambda>c. card (set (pool c))) w)"
    by (simp add: length_product_lists_prod o_def pool_card)
  finally show ?thesis .
qed

subsection \<open>Chunking of the token list\<close>

lemma range2_from: "range2 i n = map (\<lambda>k. i + 2 * k) [0 ..< (n - i + 1) div 2]"
proof (induction i n rule: range2.induct)
  case (1 i n)
  show ?case
  proof (cases "i < n")
    case True
    then have m: "(n - i + 1) div 2 = Suc ((n - (i + 2) + 1) div 2)" by arith
    have "range2 i n = i # range2 (i + 2) n"
      using True by (subst range2.simps) simp
    also have "\<dots> = i # map (\<lambda>k. i + 2 + 2 * k) [0 ..< (n - (i + 2) + 1) div 2]"
      using "1.IH" [OF True] by simp
    also have "\<dots> = map (\<lambda>k. i + 2 * k) [0 ..< Suc ((n - (i + 2) + 1) div 2)]"
      by (simp only: upt_conv_Cons [of 0] zero_less_Suc map_Suc_upt [symmetric] list.map map_map o_def)
         simp
    finally show ?thesis by (simp only: m)
  next
    case False
    then have "range2 i n = []" by (subst range2.simps) simp
    with False show ?thesis by simp
  qed
qed

lemma range2_closed: "range2 0 n = map (\<lambda>k. 2 * k) [0 ..< (n + 1) div 2]"
  by (simp add: range2_from)

lemma range2_bound: "i \<in> set (range2 0 n) \<Longrightarrow> i < n"
  by (auto simp: range2_closed)

lemma concat_guarded:
  "\<forall>i\<in>set is. P i \<Longrightarrow> concat (map (\<lambda>i. if P i then [f i] else []) is) = map f is"
  by (induction "is") auto

lemma chunk_nonempty: "i \<in> set (range2 0 (length ws)) \<Longrightarrow> 1 \<le> length (take 3 (drop i ws))"
  by (drule range2_bound) simp

lemma word_chunks_long:
  assumes "3 < length ws"
  shows "word_chunks ws = map (\<lambda>k. take 3 (drop (2 * k) ws)) [0 ..< (length ws + 1) div 2]"
proof -
  have "\<forall>i\<in>set (range2 0 (length ws)). 1 \<le> length (take 3 (drop i ws))"
    using chunk_nonempty by blast
  then have "concat (map (\<lambda>i. if 1 \<le> length (take 3 (drop i ws)) then [take 3 (drop i ws)] else [])
                         (range2 0 (length ws)))
             = map (\<lambda>i. take 3 (drop i ws)) (range2 0 (length ws))"
    by (rule concat_guarded)
  with assms show ?thesis
    by (simp add: word_chunks_def Let_def range2_closed o_def)
qed

lemma word_chunks_cover:
  assumes "w \<in> set ws"
  shows "\<exists>c\<in>set (word_chunks ws). w \<in> set c"
proof (cases "length ws \<le> 3")
  case True
  with assms show ?thesis by (simp add: word_chunks_def)
next
  case False
  from assms obtain i where i: "i < length ws" "ws ! i = w"
    by (auto simp: in_set_conv_nth)
  let ?k = "i div 2"
  have k: "?k < (length ws + 1) div 2" using i(1) by auto
  have eq: "take 3 (drop (2 * ?k) ws) ! (i - 2 * ?k) = ws ! i"
    using i(1) by (simp add: nth_take)
  have "i - 2 * ?k < length (take 3 (drop (2 * ?k) ws))"
    using i(1) by auto
  then have "take 3 (drop (2 * ?k) ws) ! (i - 2 * ?k) \<in> set (take 3 (drop (2 * ?k) ws))"
    by (rule nth_mem)
  then have "w \<in> set (take 3 (drop (2 * ?k) ws))"
    using eq i(2) by simp
  moreover have "take 3 (drop (2 * ?k) ws) \<in> set (word_chunks ws)"
    using False k by (simp add: word_chunks_long)
  ultimately show ?thesis by blast
qed

text \<open>
  Claim C7. Up to three tokens form one chunk holding all of them. More than three
  tokens are cut by a window of three that starts at every second position: chunk \<open>k\<close>
  is \<open>words[2k : 2k+3]\<close>, every chunk but the last holds three tokens, and the last token
  of a chunk is the first token of the next. Every chunk holds between one and three
  tokens (the empty token list gives the single empty chunk), and every token of the
  list lies in some chunk.
\<close>

theorem word_chunks_policy:
  "(length ws \<le> 3 \<longrightarrow> word_chunks ws = [ws])
   \<and> (3 < length ws \<longrightarrow>
        word_chunks ws = map (\<lambda>k. take 3 (drop (2 * k) ws)) [0 ..< (length ws + 1) div 2]
        \<and> (\<forall>k. Suc k < length (word_chunks ws) \<longrightarrow>
              word_chunks ws ! k = [ws ! (2 * k), ws ! (2 * k + 1), ws ! (2 * k + 2)]
              \<and> hd (word_chunks ws ! Suc k) = ws ! (2 * k + 2)))
   \<and> (\<forall>c\<in>set (word_chunks ws). 1 \<le> length c \<and> length c \<le> 3 \<or> ws = [])
   \<and> (\<forall>w\<in>set ws. \<exists>c\<in>set (word_chunks ws). w \<in> set c)"
proof (intro conjI impI allI)
  show "word_chunks ws = [ws]" if "length ws \<le> 3"
    using that by (simp add: word_chunks_def)
next
  show "word_chunks ws = map (\<lambda>k. take 3 (drop (2 * k) ws)) [0 ..< (length ws + 1) div 2]"
    if "3 < length ws" using that by (rule word_chunks_long)
next
  fix k assume l: "3 < length ws" and k: "Suc k < length (word_chunks ws)"
  from k l have k': "Suc k < (length ws + 1) div 2" by (simp add: word_chunks_long)
  then have b: "2 * k + 2 < length ws" by auto
  have "word_chunks ws ! k = take 3 (drop (2 * k) ws)"
    using l k' by (simp add: word_chunks_long)
  also have "\<dots> = [ws ! (2 * k), ws ! (2 * k + 1), ws ! (2 * k + 2)]"
    using b by (auto simp: list_eq_iff_nth_eq nth_Cons' numeral_3_eq_3 less_Suc_eq)
  finally show "word_chunks ws ! k = [ws ! (2 * k), ws ! (2 * k + 1), ws ! (2 * k + 2)]" .
  have "word_chunks ws ! Suc k = take 3 (drop (2 * Suc k) ws)"
    using l k' by (simp add: word_chunks_long)
  also have "hd \<dots> = hd (drop (2 * k + 2) ws)"
    using b by (cases "drop (2 * k + 2) ws") simp_all
  also have "\<dots> = ws ! (2 * k + 2)"
    using b by (rule hd_drop_conv_nth)
  finally show "hd (word_chunks ws ! Suc k) = ws ! (2 * k + 2)" .
next
  show "\<forall>c\<in>set (word_chunks ws). 1 \<le> length c \<and> length c \<le> 3 \<or> ws = []"
  proof (cases "length ws \<le> 3")
    case True
    then show ?thesis by (cases ws) (auto simp: word_chunks_def)
  next
    case False
    then have "word_chunks ws = map (\<lambda>k. take 3 (drop (2 * k) ws)) [0 ..< (length ws + 1) div 2]"
      by (simp add: word_chunks_long)
    moreover have "1 \<le> length (take 3 (drop (2 * k) ws)) \<and> length (take 3 (drop (2 * k) ws)) \<le> 3"
      if "k < (length ws + 1) div 2" for k
      using that by auto
    ultimately show ?thesis by auto
  qed
next
  show "\<forall>w\<in>set ws. \<exists>c\<in>set (word_chunks ws). w \<in> set c"
  proof
    fix w assume "w \<in> set ws"
    then show "\<exists>c\<in>set (word_chunks ws). w \<in> set c" by (rule word_chunks_cover)
  qed
qed



theorem word_chunks_policy_witness:
  "length [''a'', ''b''] \<le> 3 \<and> word_chunks [''a'', ''b''] = [[''a'', ''b'']]
   \<and> 3 < length [''a'', ''b'', ''c'', ''d'', ''e'']
   \<and> word_chunks [''a'', ''b'', ''c'', ''d'', ''e'']
       = map (\<lambda>k. take 3 (drop (2 * k) [''a'', ''b'', ''c'', ''d'', ''e'']))
             [0 ..< (length [''a'', ''b'', ''c'', ''d'', ''e''] + 1) div 2]
   \<and> ''d'' \<in> set [''a'', ''b'', ''c'', ''d'', ''e'']
   \<and> (\<exists>c\<in>set (word_chunks [''a'', ''b'', ''c'', ''d'', ''e'']). ''d'' \<in> set c)"
proof -
  have s: "length [''a'', ''b''] \<le> 3" by simp
  have l: "3 < length [''a'', ''b'', ''c'', ''d'', ''e'']" by simp
  have d: "''d'' \<in> set [''a'', ''b'', ''c'', ''d'', ''e'']" by simp
  note short = word_chunks_policy [of "[''a'', ''b'']"]
  note long = word_chunks_policy [of "[''a'', ''b'', ''c'', ''d'', ''e'']"]
  note 1 = short [THEN conjunct1, THEN mp, OF s]
  note 2 = long [THEN conjunct2, THEN conjunct1, THEN mp, OF l, THEN conjunct1]
  note 4 = long [THEN conjunct2, THEN conjunct2, THEN conjunct2, THEN bspec, OF d]
  from s l d 1 2 4 show ?thesis by (intro conjI)
qed

subsection \<open>Pairs joined by the combiners\<close>

lemma pair_patterns_shape:
  "x \<in> set (pair_patterns a b numbers) \<Longrightarrow>
     \<exists>sep\<in>set separators. x = a @ sep @ b
       \<or> (\<exists>num\<in>set numbers. \<exists>sym\<in>set symbols. x = a @ sep @ b @ sym @ num \<or> x = num @ a @ sep @ b)"
  by (auto simp: pair_patterns_def Let_def)

lemma name_name_patterns_pairs:
  "x \<in> set (name_name_patterns names numbers) \<Longrightarrow>
     \<exists>a\<in>set names. \<exists>b\<in>set names. a \<noteq> b \<and> x \<in> set (pair_patterns a b numbers)"
  by (auto simp: name_name_patterns_def split: if_splits)

lemma pair_forms_shape:
  "y \<in> set (pair_forms w1 w2 year depth use_caps) \<Longrightarrow>
     \<exists>(cap1, cap2)\<in>set (caps_combos use_caps). \<exists>sep\<in>set (take 2 SEPARATORS).
        y = apply_caps w1 cap1 @ sep @ apply_caps w2 cap2
      \<or> y = (apply_caps w1 cap1 @ sep @ apply_caps w2 cap2) @ year"
  by (auto simp: pair_forms_def Let_def split: if_splits)

lemma pair_stage_pairs:
  "y \<in> set (pair_stage words year depth use_caps) \<Longrightarrow>
     \<exists>w1\<in>set words. \<exists>w2\<in>set words. w1 \<noteq> w2 \<and> y \<in> set (pair_forms w1 w2 year depth use_caps)"
  by (auto simp: pair_stage_def Let_def split: if_splits dest: in_set_takeD)

lemma name_name_patterns_replicate: "name_name_patterns (replicate n a) numbers = []"
  by (simp add: name_name_patterns_def)

lemma pair_stage_replicate: "pair_stage (replicate n a) year depth use_caps = []"
  by (auto simp: pair_stage_def Let_def dest: in_set_takeD)

text \<open>
  Claim C9. Every string that the two-name stage of either combiner adds comes from
  two tokens of the list that differ as strings, joined by a separator, with or
  without the number, symbol or year attachments; and a list that repeats a single
  token yields no two-name combination at all.
\<close>

theorem combiner_never_self_pairs:
  "(x \<in> set (name_name_patterns names numbers) \<longrightarrow>
      (\<exists>a\<in>set names. \<exists>b\<in>set names. a \<noteq> b \<and>
         (\<exists>sep\<in>set separators. x = a @ sep @ b
            \<or> (\<exists>num\<in>set numbers. \<exists>sym\<in>set symbols.
                  x = a @ sep @ b @ sym @ num \<or> x = num @ a @ sep @ b))))
   \<and> (y \<in> set (pair_stage words year depth use_caps) \<longrightarrow>
      (\<exists>w1\<in>set words. \<exists>w2\<in>set words. w1 \<noteq> w2 \<and>
         (\<exists>(cap1, cap2)\<in>set (caps_combos use_caps). \<exists>sep\<in>set (take 2 SEPARATORS).
              y = apply_caps w1 cap1 @ sep @ apply_caps w2 cap2
            \<or> y = (apply_caps w1 cap1 @ sep @ apply_caps w2 cap2) @ year)))
   \<and> name_name_patterns (replicate n t) numbers = []
   \<and> pair_stage (replicate n t) year depth use_caps = []"
proof (intro conjI impI)
  assume "x \<in> set (name_name_patterns names numbers)"
  then obtain a b where "a \<in> set names" "b \<in> set names" "a \<noteq> b"
    "x \<in> set (pair_patterns a b numbers)"
    using name_name_patterns_pairs by blast
  with pair_patterns_shape [of x a b numbers]
  show "\<exists>a\<in>set names. \<exists>b\<in>set names. a \<noteq> b \<and>
         (\<exists>sep\<in>set separators. x = a @ sep @ b
            \<or> (\<exists>num\<in>set numbers. \<exists>sym\<in>set symbols.
                  x = a @ sep @ b @ sym @ num \<or> x = num @ a @ sep @ b))"
    by blast
next
  assume "y \<in> set (pair_stage words year depth use_caps)"
  then obtain w1 w2 where "w1 \<in> set words" "w2 \<in> set words" "w1 \<noteq> w2"
    "y \<in> set (pair_forms w1 w2 year depth use_caps)"
    using pair_stage_pairs by blast
  with pair_forms_shape [of y w1 w2 year depth use_caps]
  show "\<exists>w1\<in>set words. \<exists>w2\<in>set words. w1 \<noteq> w2 \<and>
         (\<exists>(cap1, cap2)\<in>set (caps_combos use_caps). \<exists>sep\<in>set (take 2 SEPARATORS).
              y = apply_caps w1 cap1 @ sep @ apply_caps w2 cap2
            \<or> y = (apply_caps w1 cap1 @ sep @ apply_caps w2 cap2) @ year)"
    by blast
next
  show "name_name_patterns (replicate n t) numbers = []" by (rule name_name_patterns_replicate)
next
  show "pair_stage (replicate n t) year depth use_caps = []" by (rule pair_stage_replicate)
qed

theorem combiner_never_self_pairs_witness:
  "''al.bob'' \<in> set (name_name_patterns [''al'', ''bob''] [''12''])
   \<and> (\<exists>a\<in>set [''al'', ''bob'']. \<exists>b\<in>set [''al'', ''bob'']. a \<noteq> b \<and>
         (\<exists>sep\<in>set separators. ''al.bob'' = a @ sep @ b
            \<or> (\<exists>num\<in>set [''12'']. \<exists>sym\<in>set symbols.
                  ''al.bob'' = a @ sep @ b @ sym @ num \<or> ''al.bob'' = num @ a @ sep @ b)))
   \<and> ''al-Bob'' \<in> set (pair_stage [''al'', ''bob''] [] 2 True)
   \<and> (\<exists>w1\<in>set [''al'', ''bob'']. \<exists>w2\<in>set [''al'', ''bob'']. w1 \<noteq> w2 \<and>
         (\<exists>(cap1, cap2)\<in>set (caps_combos True). \<exists>sep\<in>set (take 2 SEPARATORS).
              ''al-Bob'' = apply_caps w1 cap1 @ sep @ apply_caps w2 cap2
            \<or> ''al-Bob'' = (apply_caps w1 cap1 @ sep @ apply_caps w2 cap2) @ []))"
proof -
  have m1: "''al.bob'' \<in> set (name_name_patterns [''al'', ''bob''] [''12''])" by code_simp
  have m2: "''al-Bob'' \<in> set (pair_stage [''al'', ''bob''] [] 2 True)" by code_simp
  note t = combiner_never_self_pairs [of "''al.bob''" "[''al'', ''bob'']" "[''12'']"
      "''al-Bob''" "[''al'', ''bob'']" "[]" 2 True]
  from m1 m2 t [THEN conjunct1, THEN mp, OF m1] t [THEN conjunct2, THEN conjunct1, THEN mp, OF m2]
  show ?thesis by (intro conjI)
qed

subsection \<open>Year and suffix combinations of the sampled generator\<close>

lemma concat_map_mem: "a \<in> set as \<Longrightarrow> x \<in> set (f a) \<Longrightarrow> x \<in> set (concat (map f as))"
  by auto

lemma word_stage_mem:
  assumes "w \<in> set words" and "pat \<in> set (caps_list use_caps)"
    and "b \<in> set (apply_leet (apply_caps w pat) (leet_intensity depth use_leet))"
    and "x \<in> set (year_forms b year depth)"
  shows "x \<in> set (word_stage words year depth use_leet use_caps)"
  unfolding word_stage_def Let_def
  by (rule concat_map_mem [OF assms(1)], rule concat_map_mem [OF assms(2)],
      rule concat_map_mem [OF assms(3)], rule assms(4))

lemma suffix_stage_mem:
  assumes "2 \<le> depth" and "w \<in> set words" and "p \<in> set (suffix_caps use_caps)"
    and "suffix \<in> set common_suffixes"
  shows "apply_caps w p @ suffix \<in> set (suffix_stage words depth use_caps)"
proof -
  have "apply_caps w p @ suffix \<in> set (map (\<lambda>suffix. apply_caps w p @ suffix) common_suffixes)"
    using assms(4) by simp
  then have "apply_caps w p @ suffix \<in> set (concat (map (\<lambda>word.
          concat (map (\<lambda>cap_pattern. map (\<lambda>suffix. apply_caps word cap_pattern @ suffix) common_suffixes)
            (suffix_caps use_caps))) words))"
    by (intro concat_map_mem [OF assms(2)] concat_map_mem [OF assms(3)])
  with assms(1) show ?thesis by (simp add: suffix_stage_def Let_def)
qed

lemma year_forms_year:
  "year \<noteq> [] \<Longrightarrow> b @ year \<in> set (year_forms b year depth) \<and> year @ b \<in> set (year_forms b year depth)"
  by (simp add: year_forms_def)

lemma year_forms_sep:
  "year \<noteq> [] \<Longrightarrow> 2 \<le> depth \<Longrightarrow>
   b @ ''-'' @ year \<in> set (year_forms b year depth) \<and> year @ ''-'' @ b \<in> set (year_forms b year depth)"
  by (simp add: year_forms_def SEPARATORS_def)

lemma generate_variations_set:
  "set (generate_variations words year depth use_leet use_caps) =
     set (word_stage words year depth use_leet use_caps)
     \<union> set (pair_stage words year depth use_caps)
     \<union> set (suffix_stage words depth use_caps)"
  by (simp add: generate_variations_def Un_assoc)

text \<open>
  Claim C6, as the code has it. Let the year be non-empty and let \<open>b\<close> be a mutated base
  string of a token \<open>w\<close>: a substitution variant of one of its case patterns. Then the
  generated set holds \<open>b + year\<close> and \<open>year + b\<close>, and from depth 2 on also
  \<open>b + "-" + year\<close> and \<open>year + "-" + b\<close>; the hyphen is the only separator used
  here. The suffixes \<open>!\<close>, \<open>123\<close> and \<open>1\<close> are appended, from depth 2 on, to the lowercase
  form of the token and, with the case option on, to its title-case form.
\<close>

theorem year_combinations_generated:
  assumes "year \<noteq> []" and "w \<in> set words" and "pat \<in> set (caps_list use_caps)"
    and "b \<in> set (apply_leet (apply_caps w pat) (leet_intensity depth use_leet))"
  shows "b @ year \<in> set (generate_variations words year depth use_leet use_caps)
       \<and> year @ b \<in> set (generate_variations words year depth use_leet use_caps)
       \<and> (2 \<le> depth \<longrightarrow>
            b @ ''-'' @ year \<in> set (generate_variations words year depth use_leet use_caps)
          \<and> year @ ''-'' @ b \<in> set (generate_variations words year depth use_leet use_caps)
          \<and> (\<forall>suffix\<in>set [''!'', ''123'', ''1''].
                apply_caps w ''lower'' @ suffix
                  \<in> set (generate_variations words year depth use_leet use_caps)
              \<and> (use_caps \<longrightarrow> apply_caps w ''title'' @ suffix
                  \<in> set (generate_variations words year depth use_leet use_caps))))"
proof (intro conjI impI ballI)
  note mem = word_stage_mem [OF assms(2,3,4)]
  show "b @ year \<in> set (generate_variations words year depth use_leet use_caps)"
    using mem year_forms_year [OF assms(1)] by (simp add: generate_variations_set)
  show "year @ b \<in> set (generate_variations words year depth use_leet use_caps)"
    using mem year_forms_year [OF assms(1)] by (simp add: generate_variations_set)
  show "b @ ''-'' @ year \<in> set (generate_variations words year depth use_leet use_caps)"
    if "2 \<le> depth"
    using mem year_forms_sep [OF assms(1) that] by (simp add: generate_variations_set)
  show "year @ ''-'' @ b \<in> set (generate_variations words year depth use_leet use_caps)"
    if "2 \<le> depth"
    using mem year_forms_sep [OF assms(1) that] by (simp add: generate_variations_set)
next
  fix suffix assume d: "2 \<le> depth" and s: "suffix \<in> set [''!'', ''123'', ''1'']"
  then have s': "suffix \<in> set common_suffixes" by (simp add: common_suffixes_def)
  have "''lower'' \<in> set (suffix_caps use_caps)" by (simp add: suffix_caps_def)
  from suffix_stage_mem [OF d assms(2) this s']
  show "apply_caps w ''lower'' @ suffix \<in> set (generate_variations words year depth use_leet use_caps)"
    by (simp add: generate_variations_set)
  assume use_caps
  then have "''title'' \<in> set (suffix_caps use_caps)" by (simp add: suffix_caps_def)
  from suffix_stage_mem [OF d assms(2) this s']
  show "apply_caps w ''title'' @ suffix \<in> set (generate_variations words year depth use_leet use_caps)"
    by (simp add: generate_variations_set)
qed

theorem year_combinations_generated_witness:
  "''2024'' \<noteq> [] \<and> ''admin'' \<in> set [''admin''] \<and> ''upper'' \<in> set (caps_list True)
   \<and> ''4DMIN'' \<in> set (apply_leet (apply_caps ''admin'' ''upper'') (leet_intensity 2 True))
   \<and> (2::int) \<le> 2 \<and> ''123'' \<in> set [''!'', ''123'', ''1'']
   \<and> ''4DMIN'' @ ''2024'' \<in> set (generate_variations [''admin''] ''2024'' 2 True True)
   \<and> ''2024'' @ ''-'' @ ''4DMIN'' \<in> set (generate_variations [''admin''] ''2024'' 2 True True)
   \<and> apply_caps ''admin'' ''title'' @ ''123'' \<in> set (generate_variations [''admin''] ''2024'' 2 True True)"
proof -
  have y: "''2024'' \<noteq> []" by simp
  have w: "''admin'' \<in> set [''admin'']" by simp
  have p: "''upper'' \<in> set (caps_list True)" by code_simp
  have b: "''4DMIN'' \<in> set (apply_leet (apply_caps ''admin'' ''upper'') (leet_intensity 2 True))"
    by code_simp
  have d: "(2::int) \<le> 2" by simp
  have s: "''123'' \<in> set [''!'', ''123'', ''1'']" by simp
  note t = year_combinations_generated [OF y w p b]
  note t2 = t [THEN conjunct2, THEN conjunct2, THEN mp, OF d]
  from y w p b d s t [THEN conjunct1] t2 [THEN conjunct2, THEN conjunct1]
    t2 [THEN conjunct2, THEN conjunct2, THEN bspec, OF s, THEN conjunct2, THEN mp, OF TrueI]
  show ?thesis by (intro conjI)
qed


text \<open>
  Claim C6 as stated asks for the suffixes on every mutated base string. The
  upper-case form \<open>ADMIN\<close> of the token \<open>admin\<close> is such a string, and \<open>ADMIN!\<close> is not
  generated; nor is the underscore of \<open>SEPARATORS\<close> used between a base and the year.
\<close>

theorem suffix_not_on_every_base:
  "''2024'' \<noteq> [] \<and> ''admin'' \<in> set [''admin''] \<and> ''upper'' \<in> set (caps_list True)
   \<and> ''ADMIN'' \<in> set (apply_leet (apply_caps ''admin'' ''upper'') (leet_intensity 2 True))
   \<and> ''!'' \<in> set common_suffixes
   \<and> ''ADMIN'' @ ''!'' \<notin> set (generate_variations [''admin''] ''2024'' 2 True True)
   \<and> ''_'' \<in> set SEPARATORS
   \<and> ''ADMIN'' @ ''_'' @ ''2024'' \<notin> set (generate_variations [''admin''] ''2024'' 2 True True)"
  by code_simp

subsection \<open>The sampled run on \<open>admin\<close> and \<open>2024\<close>\<close>

lemma engine_generate_admin_2024:
  "engine_generate [''admin'', ''2024''] [] 2 True True =
     [''admin'', ''adm1n'', ''ADMIN'', ''4DMIN'', ''ADM1N'', ''Admin'', ''4dmin'', ''Adm1n'',
      ''2024'', ''admin2024'', ''admin-2024'', ''Admin2024'', ''Admin-2024'', ''2024Admin'',
      ''2024-Admin'', ''2024admin'', ''2024-admin'', ''admin!'', ''admin123'', ''admin1'',
      ''Admin!'', ''Admin123'', ''Admin1'', ''2024!'', ''2024123'', ''20241'']"
  by code_simp

text \<open>
  Claim C3, as the code has it. With tokens \<open>admin\<close> and \<open>2024\<close>, no year, depth 2 and both
  options on, the sampled run queues \<open>admin\<close>, \<open>ADMIN\<close>, \<open>Admin\<close>, the substituted forms
  \<open>4dmin\<close> and \<open>adm1n\<close>, and the combinations \<open>admin2024\<close>, \<open>admin-2024\<close> and \<open>2024admin\<close>.
\<close>

theorem sampled_run_contents:
  "''admin'' \<in> set (engine_generate [''admin'', ''2024''] [] 2 True True)
   \<and> ''ADMIN'' \<in> set (engine_generate [''admin'', ''2024''] [] 2 True True)
   \<and> ''Admin'' \<in> set (engine_generate [''admin'', ''2024''] [] 2 True True)
   \<and> ''4dmin'' \<in> set (engine_generate [''admin'', ''2024''] [] 2 True True)
   \<and> ''adm1n'' \<in> set (engine_generate [''admin'', ''2024''] [] 2 True True)
   \<and> ''admin2024'' \<in> set (engine_generate [''admin'', ''2024''] [] 2 True True)
   \<and> ''admin-2024'' \<in> set (engine_generate [''admin'', ''2024''] [] 2 True True)
   \<and> ''2024admin'' \<in> set (engine_generate [''admin'', ''2024''] [] 2 True True)"
  by (simp add: engine_generate_admin_2024)

text \<open>
  Claim C3 as stated also asks for \<open>admin@2024\<close>. The sampled generator attaches no
  symbol anywhere, and the string is not produced.
\<close>

theorem sampled_run_has_no_symbol_form:
  "''admin@2024'' \<notin> set (engine_generate [''admin'', ''2024''] [] 2 True True)"
  by (simp add: engine_generate_admin_2024)

subsection \<open>Starting a run on an input without tokens\<close>

lemma split_ws_blank: "list_all isspace s \<Longrightarrow> split_ws [] s = []"
  by (induction s) simp_all

lemma tui_rejects_blank:
  assumes "list_all (\<lambda>c. c = CHR '','' \<or> isspace c) base_input"
  shows "tui_start_generation base_input outfile_input use_case use_leet
           = Inl ''No base words provided''"
proof -
  have "isspace CHR '' ''" by (simp add: isspace_def)
  with assms have "list_all isspace (map (\<lambda>c. if c = CHR '','' then CHR '' '' else c) base_input)"
    by (auto simp: list_all_iff)
  then show ?thesis
    by (simp add: tui_start_generation_def split_def split_ws_blank)
qed

text \<open>
  Claim C2 at the input \<open>", ,"\<close>, which holds no token. \<open>WordlistTUI.start_generation\<close>
  tests the parsed token list and reports the error. \<open>WordlisterApp.start_generation\<close>
  tests the raw text, which is not blank, and starts a run with an empty token list:
  the output file is opened and nothing is queued for it.
\<close>

theorem app_starts_on_commas:
  "app_start_generation '', ,'' [] ''wordlist.txt'' (Some 2) True True
     = Inr \<lparr> run_output_file = ''wordlist.txt'', run_words = [], run_year = [],
              run_depth = 2, run_queued = [] \<rparr>
   \<and> tui_start_generation '', ,'' [] True True = Inl ''No base words provided''"
  by code_simp

subsection \<open>The estimate against the number of candidates\<close>

lemma fold_add_sum_list:
  "fold (\<lambda>w total. total + f w) ws a = a + sum_list (map f ws)" for a :: nat
  by (induction ws arbitrary: a) simp_all

lemma card_UN_list_le: "card (\<Union>x\<in>set xs. set (f x)) \<le> sum_list (map (\<lambda>x. card (set (f x))) xs)"
proof (induction xs)
  case Nil
  then show ?case by simp
next
  case (Cons x xs)
  have "card (\<Union>y\<in>set (x # xs). set (f y)) \<le> card (set (f x)) + card (\<Union>y\<in>set xs. set (f y))"
    by (simp add: card_Un_le)
  with Cons show ?case by simp
qed

lemma sum_list_bounded: "\<forall>x\<in>set xs. f x \<le> k \<Longrightarrow> sum_list (map f xs) \<le> length xs * (k::nat)"
  by (induction xs) auto

lemma mutate_final_case_only:
  "set (mutate_final w True False) = {lower w, upper w, capitalize w}"
  by (auto simp: mutate_final_def union_over_def case_variants_def)

lemma card_mutate_final_no_leet:
  "card (set (mutate_final w use_case False)) \<le> (if use_case then 3 else 1)"
proof (cases use_case)
  case True
  have "card {lower w, upper w, capitalize w} \<le> 3"
    by (simp add: card_insert_le_m1)
  with True show ?thesis by (simp add: mutate_final_case_only)
next
  case False
  then show ?thesis by (simp add: mutate_final_def)
qed

lemma word_count_no_leet: "word_count use_case False w = (if use_case then 3 else 1)"
  by (simp add: word_count_def)

lemma estimate_total_no_leet:
  "estimate_total ws use_case False =
     max (length ws * (if use_case then 3 else 1)
          + length (combine_words (fst (split_words ws)) (snd (split_words ws)))
            * (if use_case then 3 else 1)) 1"
  by (simp add: estimate_total_def Let_def split_beta fold_add_sum_list word_count_no_leet
      sum_list_triv)

text \<open>
  Claim C1, as the code has it. With the leet option off, the estimate is at least the
  number of distinct candidates the stream yields, for every token list and either
  setting of the case option.
\<close>

theorem estimate_total_bounds_without_leet:
  "card (set (generate_words_smart ws use_case False)) \<le> estimate_total ws use_case False"
proof -
  let ?k = "if use_case then 3 else 1 :: nat"
  let ?combos = "combine_words (fst (split_words ws)) (snd (split_words ws))"
  let ?m = "\<lambda>w. mutate_final w use_case False"
  have b: "\<forall>w\<in>set xs. card (set (?m w)) \<le> ?k" for xs
    using card_mutate_final_no_leet by blast
  have "card (set (generate_words_smart ws use_case False))
        \<le> card (\<Union>w\<in>set ws. set (?m w)) + card (\<Union>c\<in>set ?combos. set (?m c))"
    by (simp add: generate_words_smart_set card_Un_le)
  also have "\<dots> \<le> sum_list (map (\<lambda>w. card (set (?m w))) ws)
                  + sum_list (map (\<lambda>c. card (set (?m c))) ?combos)"
    by (intro add_mono card_UN_list_le)
  also have "\<dots> \<le> length ws * ?k + length ?combos * ?k"
    by (intro add_mono sum_list_bounded b)
  also have "\<dots> \<le> estimate_total ws use_case False"
    by (simp add: estimate_total_no_leet)
  finally show ?thesis .
qed

text \<open>
  Claim C1 as stated covers the leet option too. There the estimate counts three
  glyphs per character, while the pool of \<open>a\<close> has four: for the single token \<open>a\<close> the
  estimate is 3 and the stream yields 4 candidates.
\<close>

theorem estimate_total_undershoots:
  "[''a''] \<noteq> []
   \<and> estimate_total [''a''] False True < card (set (generate_words_smart [''a''] False True))"
  by code_simp

end
